theory Spec2Isabelle
  imports Complex_Main "HOL-Library.Char_ord" "HOL-Library.List_Lexorder"
    "HOL-Library.Option_ord" "HOL-Library.Product_Lexorder" "HOL-Library.Multiset"
begin

section \<open>The crime-report notebook: the driver calls of every cell\<close>

text \<open>
  \<^verbatim>\<open>Notebooks/crime_report_database.ipynb\<close> is a straight-line script: each code cell
  is a sequence of calls on the psycopg2 driver (and of reads of \<^verbatim>\<open>data/boston.csv\<close>).
  The SQL text handed to \<^verbatim>\<open>cur.execute\<close> is kept as a small syntax tree, one constructor
  per statement form that occurs in the two notebooks.
\<close>

datatype privilege = CONNECT | USAGE | SELECT | INSERT | DELETE | UPDATE

datatype sql_object =
    ON_DATABASE string
  | ON_SCHEMA string
  | ON_ALL_TABLES_IN_SCHEMA string

datatype column_type =
    SERIAL_PRIMARY_KEY
  | SMALLINT
  | VARCHAR nat
  | DATE
  | DECIMAL
  | USER_TYPE string

datatype sql =
    DROP_DATABASE_IF_EXISTS string
  | DROP_GROUP_IF_EXISTS string
  | DROP_USER_IF_EXISTS string
  | DROP_VIEW_IF_EXISTS string
  | CREATE_DATABASE string
  | CREATE_SCHEMA string
  | CREATE_TYPE_AS_ENUM string "string list"
  | CREATE_TABLE string "(string \<times> column_type) list"
  | CREATE_VIEW string
  | COPY_FROM_STDIN_WITH_CSV_HEADER string
  | REVOKE_ALL sql_object string
  | CREATE_GROUP_NOLOGIN string
  | GRANT "privilege list" sql_object string
  | CREATE_USER_WITH_PASSWORD string string
  | GRANT_ROLE string string
  | QUERY string

text \<open>
  The calls a cell makes. \<open>connect\<close> is \<^verbatim>\<open>conn = psycopg2.connect(dbname, user, password)\<close>,
  \<open>sql_magic_connect\<close> is the Chinook notebook's \<^verbatim>\<open>%sql sqlite:///data/chinook.db\<close>,
  \<open>copy_expert q p\<close> is \<^verbatim>\<open>with open(p) as f: cur.copy_expert(q, f)\<close>,
  \<open>read_header p\<close> is cell 9 (the csv reader's first two rows),
  \<open>get_col_set_call p i\<close> is a call of the notebook's own \<^verbatim>\<open>get_col_set(p, i)\<close>.
  What a cell computes from the values these calls return (the lengths it prints, the
  longest description, the least and greatest offense code) touches neither the driver nor
  the file and is not part of the call sequence.
\<close>

datatype call =
    connect string string string
  | sql_magic_connect string
  | set_autocommit bool
  | cursor
  | execute sql
  | copy_expert sql string
  | fetchall
  | fetchmany nat
  | commit
  | close
  | read_header string
  | get_col_set_call string int


definition boston_csv :: string where
  "boston_csv = ''data/boston.csv''"

definition create_boston_crimes :: sql where
  "create_boston_crimes =
     CREATE_TABLE ''crimes.boston_crimes''
       [(''incident_number'', SERIAL_PRIMARY_KEY),
        (''offense_code'', SMALLINT),
        (''description'', VARCHAR 116),
        (''date'', DATE),
        (''day_of_the_week'', USER_TYPE ''weekday_enum''),
        (''lat'', DECIMAL),
        (''long'', DECIMAL)]"

definition create_weekday_enum :: sql where
  "create_weekday_enum =
     CREATE_TYPE_AS_ENUM ''weekday_enum''
       [''Sunday'', ''Monday'', ''Tuesday'', ''Wednesday'', ''Thursday'', ''Friday'',
        ''Saturday'']"

text \<open>The code cells in notebook order (cells 2, 4, 6, 9, 11, 13, 15, 21, 22, 24, 26, 28,
  31, 33, 36, 38, 42, 44, 46, 48); the markdown cells make no call.\<close>

definition cell_drop_preamble :: "call list" where
  "cell_drop_preamble =
     [connect ''postgres'' ''postgres'' ''6288'',
      set_autocommit True,
      cursor,
      execute (DROP_DATABASE_IF_EXISTS ''crime_db''),
      execute (DROP_GROUP_IF_EXISTS ''readonly''),
      execute (DROP_GROUP_IF_EXISTS ''readwrite''),
      execute (DROP_USER_IF_EXISTS ''data_analyst''),
      execute (DROP_USER_IF_EXISTS ''data_scientist''),
      close]"

definition cell_create_database :: "call list" where
  "cell_create_database =
     [connect ''postgres'' ''postgres'' ''6288'',
      set_autocommit True,
      cursor,
      execute (CREATE_DATABASE ''crime_db''),
      close]"

definition cell_create_schema :: "call list" where
  "cell_create_schema =
     [connect ''crime_db'' ''postgres'' ''6288'',
      cursor,
      execute (CREATE_SCHEMA ''crimes'')]"

definition cell_read_header :: "call list" where
  "cell_read_header = [read_header boston_csv]"

definition cell_count_columns :: "call list" where
  "cell_count_columns = map (get_col_set_call boston_csv) [0, 1, 2, 3, 4, 5, 6]"

definition cell_descriptions :: "call list" where
  "cell_descriptions = [get_col_set_call boston_csv 2]"

definition cell_codes :: "call list" where
  "cell_codes = [get_col_set_call boston_csv 1]"

definition cell_weekdays :: "call list" where
  "cell_weekdays = [get_col_set_call boston_csv 4]"

definition cell_create_type :: "call list" where
  "cell_create_type = [execute create_weekday_enum]"

definition cell_create_table :: "call list" where
  "cell_create_table = [execute create_boston_crimes]"

definition cell_copy :: "call list" where
  "cell_copy =
     [copy_expert (COPY_FROM_STDIN_WITH_CSV_HEADER ''crimes.boston_crimes'') boston_csv]"

definition cell_first_rows :: "call list" where
  "cell_first_rows =
     [execute (QUERY ''SELECT * FROM crimes.boston_crimes LIMIT 3;''), fetchall]"

definition cell_revoke :: "call list" where
  "cell_revoke =
     [execute (REVOKE_ALL (ON_SCHEMA ''public'') ''public''),
      execute (REVOKE_ALL (ON_DATABASE ''crime_db'') ''public'')]"

definition cell_groups :: "call list" where
  "cell_groups =
     [execute (CREATE_GROUP_NOLOGIN ''readonly''),
      execute (CREATE_GROUP_NOLOGIN ''readwrite''),
      execute (GRANT [CONNECT] (ON_DATABASE ''crime_db'') ''readonly''),
      execute (GRANT [CONNECT] (ON_DATABASE ''crime_db'') ''readwrite''),
      execute (GRANT [USAGE] (ON_SCHEMA ''crimes'') ''readonly''),
      execute (GRANT [USAGE] (ON_SCHEMA ''crimes'') ''readonly''),
      execute (GRANT [SELECT] (ON_ALL_TABLES_IN_SCHEMA ''crimes'') ''readonly''),
      execute (GRANT [SELECT, INSERT, DELETE, UPDATE] (ON_ALL_TABLES_IN_SCHEMA ''crimes'')
                 ''readwrite'')]"

definition cell_users :: "call list" where
  "cell_users =
     [execute (CREATE_USER_WITH_PASSWORD ''data_analyst'' ''abc''),
      execute (GRANT_ROLE ''readonly'' ''data_analyst''),
      execute (CREATE_USER_WITH_PASSWORD ''data_scientist'' ''123''),
      execute (GRANT_ROLE ''readwrite'' ''data_scientist'')]"

definition cell_commit_close :: "call list" where
  "cell_commit_close = [commit, close]"

definition cell_test_schemata :: "call list" where
  "cell_test_schemata =
     [connect ''crime_db'' ''postgres'' ''6288'',
      cursor,
      execute (QUERY ''SELECT schema_name FROM information_schema.schemata;''),
      fetchall]"

definition cell_test_tables :: "call list" where
  "cell_test_tables =
     [execute (QUERY
        ''SELECT * FROM information_schema.tables WHERE table_schema = 'crimes';''),
      fetchall]"

definition cell_test_roles :: "call list" where
  "cell_test_roles =
     [execute (QUERY
        ''SELECT * FROM information_schema.applicable_roles WHERE role_name = 'readonly' OR role_name = 'readwrite';''),
      fetchmany 5]"

definition cell_test_privileges :: "call list" where
  "cell_test_privileges =
     [execute (QUERY
        ''SELECT grantee, privilege_type FROM information_schema.table_privileges WHERE grantee = 'readwrite' OR grantee = 'readonly';''),
      fetchall]"

definition crime_notebook :: "call list list" where
  "crime_notebook =
     [cell_drop_preamble, cell_create_database, cell_create_schema, cell_read_header,
      cell_count_columns, cell_descriptions, cell_codes, cell_weekdays, cell_create_type,
      cell_create_table, cell_copy, cell_first_rows, cell_revoke, cell_groups, cell_users,
      cell_commit_close, cell_test_schemata, cell_test_tables, cell_test_roles,
      cell_test_privileges]"

lemmas crime_cells =
  cell_drop_preamble_def cell_create_database_def cell_create_schema_def
  cell_read_header_def cell_count_columns_def cell_descriptions_def cell_codes_def
  cell_weekdays_def cell_create_type_def cell_create_table_def cell_copy_def
  cell_first_rows_def cell_revoke_def cell_groups_def cell_users_def
  cell_commit_close_def cell_test_schemata_def cell_test_tables_def cell_test_roles_def
  cell_test_privileges_def

text \<open>The SQL statements a list of calls sends to the server, in order.\<close>

fun statement_of :: "call \<Rightarrow> sql list" where
  "statement_of (execute q) = [q]"
| "statement_of (copy_expert q p) = [q]"
| "statement_of c = []"

definition statements :: "call list list \<Rightarrow> sql list" where
  "statements cells = concat (map statement_of (concat cells))"

text \<open>
  The privileges a sequence of statements leaves behind, as triples of grantee, privilege
  and object: \<open>GRANT\<close> adds the triples it names, \<open>REVOKE ALL\<close> removes every triple of
  that grantee on that object, and no other statement of the notebook touches them.
\<close>

fun apply_privileges ::
  "(string \<times> privilege \<times> sql_object) set \<Rightarrow> sql \<Rightarrow> (string \<times> privilege \<times> sql_object) set" where
  "apply_privileges acl (GRANT ps obj role) = acl \<union> {(role, p, obj) |p. p \<in> set ps}"
| "apply_privileges acl (REVOKE_ALL obj role) = {(r, p, ob). (r, p, ob) \<in> acl \<and> \<not> (r = role \<and> ob = obj)}"
| "apply_privileges acl q = acl"

definition privileges_after :: "sql list \<Rightarrow> (string \<times> privilege \<times> sql_object) set" where
  "privileges_after qs = foldl apply_privileges {} qs"


section \<open>The Chinook notebook: the calls of every cell\<close>


section \<open>Reading the CSV file: \<open>get_col_set\<close>\<close>




section \<open>Running a notebook\<close>












subsection \<open>Kinds of statement\<close>






text \<open>Whether a statement grants USAGE on a schema to a role.\<close>

fun grants_usage :: "string \<Rightarrow> string \<Rightarrow> sql \<Rightarrow> bool" where
  "grants_usage schema role (GRANT ps (ON_SCHEMA s) r) = (USAGE \<in> set ps \<and> s = schema \<and> r = role)"
| "grants_usage schema role q = False"

subsection \<open>Test data\<close>






section \<open>The Chinook tables and the SQL operators of the queries\<close>

text \<open>
  The database \<^verbatim>\<open>data/chinook.db\<close> is a fixture outside the repository, so the tables are
  parameters of every query. A table is the list of its rows. Of each table only the
  columns the queries read are kept, under the names the queries use (alias, underscore,
  column). An INTEGER PRIMARY KEY and a column the Chinook schema declares NOT NULL hold a
  plain value; a nullable column holds an option, \<open>None\<close> for NULL. Quantities are integers.
  Money (\<^verbatim>\<open>invoice.total\<close>, NUMERIC(10,2)) is an exact rational here: SQLite computes with
  binary floating point, whose rounding errors (the 1731.5100000000039 of the captured
  output) are outside this development.
\<close>

record invoice_line =
  il_invoice_line_id :: nat
  il_invoice_id :: nat
  il_track_id :: nat
  il_quantity :: int

record track =
  t_track_id :: nat
  t_album_id :: "nat option"
  t_genre_id :: "nat option"


record invoice =
  i_invoice_id :: nat
  i_customer_id :: nat
  i_total :: rat



subsection \<open>Joins, groups, aggregates\<close>


text \<open>\<^verbatim>\<open>xs LEFT JOIN ys ON on\<close>: a left row without a partner is kept, with NULLs (\<open>None\<close>)
  for the right row.\<close>

definition left_join :: "'a list \<Rightarrow> 'b list \<Rightarrow> ('a \<Rightarrow> 'b \<Rightarrow> bool) \<Rightarrow> ('a \<times> 'b option) list" where
  "left_join xs ys on =
     concat (map (\<lambda>x. case filter (on x) ys of
                         [] \<Rightarrow> [(x, None)]
                       | y # more_ys \<Rightarrow> map (\<lambda>y'. (x, Some y')) (y # more_ys)) xs)"

text \<open>
  \<^verbatim>\<open>GROUP BY key\<close>: one group per distinct key, NULL being a key like any other. SQL leaves
  the order of the groups open; SQLite sorts the rows by the key to form them, so the
  groups come in ascending order of the key, NULL first.
\<close>

definition group_by :: "('r \<Rightarrow> 'k::linorder) \<Rightarrow> 'r list \<Rightarrow> ('k \<times> 'r list) list" where
  "group_by key rows =
     map (\<lambda>k. (k, filter (\<lambda>r. key r = k) rows)) (sort (remdups (map key rows)))"

text \<open>\<^verbatim>\<open>COUNT(x)\<close> counts the values that are not NULL, \<^verbatim>\<open>COUNT(DISTINCT x)\<close> the distinct
  ones among them.\<close>

definition sql_count :: "'a option list \<Rightarrow> nat" where
  "sql_count xs = length (filter (\<lambda>x. x \<noteq> None) xs)"

definition count_distinct :: "'a option list \<Rightarrow> nat" where
  "count_distinct xs = length (remdups (filter (\<lambda>x. x \<noteq> None) xs))"


definition sql_max :: "'a::linorder option list \<Rightarrow> 'a option" where
  "sql_max xs =
     (case List.map_filter id xs of [] \<Rightarrow> None | v # vs \<Rightarrow> Some (fold max vs v))"

text \<open>Division: NULL if an operand is NULL or the divisor is zero.\<close>

definition sql_div :: "rat option \<Rightarrow> rat option \<Rightarrow> rat option" where
  "sql_div x y =
     (case (x, y) of
        (Some a, Some b) \<Rightarrow> if b = 0 then None else Some (a / b)
      | _ \<Rightarrow> None)"

text \<open>\<^verbatim>\<open>ROUND(x, d)\<close>: to \<open>d\<close> decimal places, a half away from zero; NULL stays NULL.\<close>

definition round_to :: "nat \<Rightarrow> rat \<Rightarrow> rat" where
  "round_to d x =
     (if 0 \<le> x then of_int \<lfloor>x * 10 ^ d + 1 / 2\<rfloor> / 10 ^ d
      else - (of_int \<lfloor>- x * 10 ^ d + 1 / 2\<rfloor> / 10 ^ d))"

definition sql_round :: "rat option \<Rightarrow> nat \<Rightarrow> rat option" where
  "sql_round x d = map_option (round_to d) x"


text \<open>
  The truth values of SQL are \<open>Some True\<close>, \<open>Some False\<close> and NULL. A comparison with a
  NULL operand is NULL; WHERE and HAVING keep a row only if the condition is true.
\<close>

definition sql_eq :: "'a option \<Rightarrow> 'a option \<Rightarrow> bool option" where
  "sql_eq x y = (case (x, y) of (Some a, Some b) \<Rightarrow> Some (a = b) | _ \<Rightarrow> None)"

definition sql_ne :: "'a option \<Rightarrow> 'a option \<Rightarrow> bool option" where
  "sql_ne x y = (case (x, y) of (Some a, Some b) \<Rightarrow> Some (a \<noteq> b) | _ \<Rightarrow> None)"

definition sql_and :: "bool option \<Rightarrow> bool option \<Rightarrow> bool option" where
  "sql_and p q =
     (if p = Some False \<or> q = Some False then Some False
      else if p = Some True \<and> q = Some True then Some True
      else None)"

definition sql_or :: "bool option \<Rightarrow> bool option \<Rightarrow> bool option" where
  "sql_or p q =
     (if p = Some True \<or> q = Some True then Some True
      else if p = Some False \<and> q = Some False then Some False
      else None)"

definition is_true :: "bool option \<Rightarrow> bool" where
  "is_true p = (p = Some True)"


text \<open>A column of the right-hand table of a LEFT JOIN: NULL in a row without partner.\<close>

definition col :: "('b \<Rightarrow> 'v) \<Rightarrow> 'b option \<Rightarrow> 'v option" where
  "col f y = map_option f y"

definition col_nullable :: "('b \<Rightarrow> 'v option) \<Rightarrow> 'b option \<Rightarrow> 'v option" where
  "col_nullable f y = (case y of None \<Rightarrow> None | Some b \<Rightarrow> f b)"

section \<open>Most popular genres\<close>








definition percent_of :: "int \<Rightarrow> int \<Rightarrow> rat option" where
  "percent_of part whole =
     (if whole = 0 then None else Some (round_to 2 (100 * of_int part / of_int whole)))"



section \<open>Employee performance\<close>







section \<open>Customers by country\<close>
















section \<open>Album purchases\<close>

text \<open>
  \<^verbatim>\<open>
  WITH invoice_album AS
           (SELECT il.invoice_id, il.invoice_line_id, il.track_id, t.album_id
            FROM invoice_line il
            LEFT JOIN track t ON t.track_id = il.track_id),
       album_lengths AS
           (SELECT album_id, COUNT(DISTINCT track_id) AS album_length
            FROM track
            GROUP BY album_id)
  \<close>
\<close>

record invoice_album_row =
  ia_invoice_id :: nat
  ia_invoice_line_id :: nat
  ia_track_id :: nat
  ia_album_id :: "nat option"

definition invoice_album_of :: "invoice_line \<Rightarrow> track option \<Rightarrow> invoice_album_row" where
  "invoice_album_of il t =
     \<lparr>ia_invoice_id = il_invoice_id il,
      ia_invoice_line_id = il_invoice_line_id il,
      ia_track_id = il_track_id il,
      ia_album_id = col_nullable t_album_id t\<rparr>"

definition invoice_album :: "invoice_line list \<Rightarrow> track list \<Rightarrow> invoice_album_row list" where
  "invoice_album il_tab t_tab =
     map (\<lambda>(il, t). invoice_album_of il t)
       (left_join il_tab t_tab (\<lambda>il t. t_track_id t = il_track_id il))"

record album_length_row =
  al_album_id :: "nat option"
  al_album_length :: nat

definition album_lengths :: "track list \<Rightarrow> album_length_row list" where
  "album_lengths t_tab =
     map (\<lambda>(a, rows).
            \<lparr>al_album_id = a,
             al_album_length = count_distinct (map (\<lambda>t. Some (t_track_id t)) rows)\<rparr>)
       (group_by t_album_id t_tab)"

text \<open>
  The two SELECTs of the subquery differ in the label and in the HAVING clause only:
  \<^verbatim>\<open>
  SELECT ia.invoice_id,
         COUNT(DISTINCT ia.album_id) AS num_albums,
         COUNT(DISTINCT ia.track_id) AS distinct_songs,
         MAX(ia.album_id) AS album_id,
         al.album_length,
         "yes" AS album_purchase
  FROM invoice_album ia
  LEFT JOIN album_lengths al ON al.album_id = ia.album_id
  GROUP BY invoice_id
  HAVING (num_albums = 1) AND (distinct_songs = album_length)
  UNION
  SELECT ..., "no" AS album_purchase
  ...
  HAVING (num_albums != 1) OR (distinct_songs != album_length)
  \<close>
  \<^verbatim>\<open>al.album_length\<close> is a bare column beside a single MAX: SQLite takes it from the row
  of the group in which \<^verbatim>\<open>ia.album_id\<close> is the maximum (from the first such row; from the
  first row of the group when every \<^verbatim>\<open>ia.album_id\<close> is NULL).
\<close>

definition invoice_album_lengths ::
  "invoice_line list \<Rightarrow> track list \<Rightarrow> (invoice_album_row \<times> album_length_row option) list" where
  "invoice_album_lengths il_tab t_tab =
     left_join (invoice_album il_tab t_tab) (album_lengths t_tab)
       (\<lambda>ia al. is_true (sql_eq (al_album_id al) (ia_album_id ia)))"

record classified_row =
  invoice_id :: nat
  num_albums :: nat
  distinct_songs :: nat
  album_id :: "nat option"
  album_length :: "nat option"
  album_purchase :: string

definition length_of_max_album ::
  "(invoice_album_row \<times> album_length_row option) list \<Rightarrow> nat option" where
  "length_of_max_album rows =
     (case find (\<lambda>(ia, al). ia_album_id ia = sql_max (map (\<lambda>(ia, al). ia_album_id ia) rows))
             rows of
        None \<Rightarrow> None
      | Some (ia, al) \<Rightarrow> col al_album_length al)"

definition summary ::
  "string \<Rightarrow> nat \<times> (invoice_album_row \<times> album_length_row option) list \<Rightarrow> classified_row" where
  "summary label g =
     \<lparr>invoice_id = fst g,
      num_albums = count_distinct (map (\<lambda>(ia, al). ia_album_id ia) (snd g)),
      distinct_songs = count_distinct (map (\<lambda>(ia, al). Some (ia_track_id ia)) (snd g)),
      album_id = sql_max (map (\<lambda>(ia, al). ia_album_id ia) (snd g)),
      album_length = length_of_max_album (snd g),
      album_purchase = label\<rparr>"

definition having_yes :: "classified_row \<Rightarrow> bool" where
  "having_yes r =
     is_true (sql_and (sql_eq (Some (num_albums r)) (Some 1))
                      (sql_eq (Some (distinct_songs r)) (album_length r)))"

definition having_no :: "classified_row \<Rightarrow> bool" where
  "having_no r =
     is_true (sql_or (sql_ne (Some (num_albums r)) (Some 1))
                     (sql_ne (Some (distinct_songs r)) (album_length r)))"

definition classified :: "invoice_line list \<Rightarrow> track list \<Rightarrow> classified_row list" where
  "classified il_tab t_tab =
     (let groups = group_by (\<lambda>(ia, al). ia_invoice_id ia) (invoice_album_lengths il_tab t_tab)
      in remdups (filter having_yes (map (summary ''yes'') groups)
                  @ filter having_no (map (summary ''no'') groups)))"

text \<open>
  \<^verbatim>\<open>
  SELECT album_purchase,
         COUNT(invoice_id) AS number_of_invoices,
         ROUND(CAST(COUNT(invoice_id) AS float)/(SELECT COUNT(invoice_id) FROM invoice),3)
           AS percent
  FROM ( ... )
  GROUP BY album_purchase
  \<close>
\<close>

record purchase_row =
  purchase :: string
  number_of_invoices :: nat
  percent :: "rat option"

definition album_query ::
  "invoice_line list \<Rightarrow> track list \<Rightarrow> invoice list \<Rightarrow> purchase_row list" where
  "album_query il_tab t_tab i_tab =
     map (\<lambda>(label, rows).
            \<lparr>purchase = label,
             number_of_invoices = sql_count (map (\<lambda>r. Some (invoice_id r)) rows),
             percent =
               sql_round
                 (sql_div (Some (of_nat (sql_count (map (\<lambda>r. Some (invoice_id r)) rows))))
                    (Some (of_nat (sql_count (map (\<lambda>i. Some (i_invoice_id i)) i_tab)))))
                 3\<rparr>)
       (group_by album_purchase (classified il_tab t_tab))"

text \<open>
  What claim C1 speaks of: the distinct albums among the tracks on the lines of an invoice,
  the distinct tracks on its lines, the distinct tracks of an album in the track table, and
  the condition that the invoice has one album and as many tracks as that album.
\<close>

definition albums_on :: "invoice_line list \<Rightarrow> track list \<Rightarrow> nat \<Rightarrow> nat list" where
  "albums_on il_tab t_tab v =
     remdups (List.map_filter t_album_id
       (filter (\<lambda>t. \<exists>il \<in> set il_tab. il_invoice_id il = v \<and> il_track_id il = t_track_id t)
          t_tab))"

definition tracks_on :: "invoice_line list \<Rightarrow> nat \<Rightarrow> nat list" where
  "tracks_on il_tab v = remdups (map il_track_id (filter (\<lambda>il. il_invoice_id il = v) il_tab))"

definition album_tracks :: "track list \<Rightarrow> nat \<Rightarrow> nat list" where
  "album_tracks t_tab a = remdups (map t_track_id (filter (\<lambda>t. t_album_id t = Some a) t_tab))"

definition whole_album :: "invoice_line list \<Rightarrow> track list \<Rightarrow> nat \<Rightarrow> bool" where
  "whole_album il_tab t_tab v =
     (case albums_on il_tab t_tab v of
        [a] \<Rightarrow> length (tracks_on il_tab v) = length (album_tracks t_tab a)
      | _ \<Rightarrow> False)"

text \<open>The rows of the group of invoice \<open>v\<close>.\<close>

definition lines_of ::
  "invoice_line list \<Rightarrow> track list \<Rightarrow> nat \<Rightarrow> (invoice_album_row \<times> album_length_row option) list" where
  "lines_of il_tab t_tab v =
     filter (\<lambda>(ia, al). ia_invoice_id ia = v) (invoice_album_lengths il_tab t_tab)"

section \<open>Sample tables\<close>

text \<open>A small database to evaluate the queries on: two albums of two tracks each and a
  track without album, three invoices, four customers, two employees.\<close>

definition sample_track :: "track list" where
  "sample_track =
     [\<lparr>t_track_id = 10, t_album_id = Some 1, t_genre_id = Some 1\<rparr>,
      \<lparr>t_track_id = 11, t_album_id = Some 1, t_genre_id = Some 1\<rparr>,
      \<lparr>t_track_id = 12, t_album_id = Some 2, t_genre_id = Some 2\<rparr>,
      \<lparr>t_track_id = 13, t_album_id = Some 2, t_genre_id = Some 2\<rparr>,
      \<lparr>t_track_id = 14, t_album_id = None, t_genre_id = None\<rparr>]"


definition sample_invoice_line :: "invoice_line list" where
  "sample_invoice_line =
     [\<lparr>il_invoice_line_id = 1, il_invoice_id = 1, il_track_id = 10, il_quantity = 1\<rparr>,
      \<lparr>il_invoice_line_id = 2, il_invoice_id = 1, il_track_id = 11, il_quantity = 1\<rparr>,
      \<lparr>il_invoice_line_id = 3, il_invoice_id = 2, il_track_id = 12, il_quantity = 1\<rparr>,
      \<lparr>il_invoice_line_id = 4, il_invoice_id = 3, il_track_id = 10, il_quantity = 1\<rparr>,
      \<lparr>il_invoice_line_id = 5, il_invoice_id = 3, il_track_id = 12, il_quantity = 1\<rparr>]"

definition sample_invoice :: "invoice list" where
  "sample_invoice =
     [\<lparr>i_invoice_id = 1, i_customer_id = 1, i_total = 198 / 100\<rparr>,
      \<lparr>i_invoice_id = 2, i_customer_id = 2, i_total = 99 / 100\<rparr>,
      \<lparr>i_invoice_id = 3, i_customer_id = 3, i_total = 198 / 100\<rparr>]"



section \<open>Properties of the notebooks\<close>

subsection \<open>Reading a column\<close>






subsection \<open>Runs\<close>












subsection \<open>Connections\<close>





subsection \<open>Order of the statements\<close>

lemmas crime_statements =
  statements_def crime_notebook_def crime_cells create_weekday_enum_def
  create_boston_crimes_def




subsection \<open>Failures\<close>



subsection \<open>The column sets and the bulk load\<close>



subsection \<open>Schema usage\<close>

text \<open>
  Claim C10: the group-creation cell grants USAGE on schema \<^verbatim>\<open>crimes\<close> to \<^verbatim>\<open>readonly\<close>
  twice; no statement of the notebook grants it to \<^verbatim>\<open>readwrite\<close>, which is granted
  SELECT, INSERT, DELETE and UPDATE on all tables of the schema; so the privileges the
  notebook's statements leave behind give \<^verbatim>\<open>readonly\<close> usage of the schema and
  \<^verbatim>\<open>readwrite\<close> none.
\<close>

theorem readwrite_is_never_granted_usage:
  "length (filter (grants_usage ''crimes'' ''readonly'') (statements [cell_groups])) = 2
   \<and> filter (grants_usage ''crimes'' ''readwrite'') (statements crime_notebook) = []
   \<and> GRANT [SELECT, INSERT, DELETE, UPDATE] (ON_ALL_TABLES_IN_SCHEMA ''crimes'') ''readwrite''
       \<in> set (statements [cell_groups])
   \<and> (''readonly'', USAGE, ON_SCHEMA ''crimes'') \<in> privileges_after (statements crime_notebook)
   \<and> (''readwrite'', USAGE, ON_SCHEMA ''crimes'')
       \<notin> privileges_after (statements crime_notebook)"
  by (simp add: privileges_after_def crime_statements)

section \<open>Properties of the queries\<close>

subsection \<open>Keys, joins and groups\<close>








lemma set_group_keys: "set (map fst (group_by key rows)) = key ` set rows"
  by (simp add: group_by_def comp_def)


lemma group_by_rows:
  "(k, g) \<in> set (group_by key rows) \<Longrightarrow> g = filter (\<lambda>r. key r = k) rows \<and> k \<in> key ` set rows"
  by (auto simp: group_by_def)


subsection \<open>Most popular genres\<close>
















lemma left_join_Cons:
  "left_join (x # xs) ys on = left_join [x] ys on @ left_join xs ys on"
  by (simp add: left_join_def)

lemma left_join_Nil: "left_join [] ys on = []"
  by (simp add: left_join_def)

lemma set_left_join:
  "set (left_join xs ys on) =
     {(x, Some y) |x y. x \<in> set xs \<and> y \<in> set ys \<and> on x y}
     \<union> {(x, None) |x. x \<in> set xs \<and> (\<forall>y \<in> set ys. \<not> on x y)}"
proof -
  have one: "set (case filter (on x) ys of [] \<Rightarrow> [(x, None)]
                  | y # more_ys \<Rightarrow> map (\<lambda>y'. (x, Some y')) (y # more_ys))
      = {(x, Some y) |y. y \<in> set ys \<and> on x y}
        \<union> {(x, None) |u. u = x \<and> (\<forall>y \<in> set ys. \<not> on x y)}" for x
  proof (cases "filter (on x) ys")
    case Nil
    then show ?thesis by (auto simp: filter_empty_conv)
  next
    case (Cons y more_ys)
    then have "set (filter (on x) ys) = set (y # more_ys)" by simp
    then have "\<exists>y \<in> set ys. on x y" by auto
    moreover have "set (map (\<lambda>y'. (x, Some y')) (filter (on x) ys))
        = {(x, Some y) |y. y \<in> set ys \<and> on x y}" by auto
    ultimately show ?thesis using Cons by auto
  qed
  show ?thesis
    unfolding left_join_def set_concat set_map by (auto simp: one)
qed





subsection \<open>Employee performance\<close>











subsection \<open>Customers by country\<close>









lemma count_distinct_card:
  "count_distinct xs = card {x. Some x \<in> set xs}"
proof -
  have "set (filter (\<lambda>x. x \<noteq> None) xs) = Some ` {x. Some x \<in> set xs}"
    by (auto simp: image_iff)
  then have "card (set (filter (\<lambda>x. x \<noteq> None) xs)) = card {x. Some x \<in> set xs}"
    by (simp add: card_image)
  then show ?thesis
    by (simp add: count_distinct_def length_remdups_card_conv)
qed










subsection \<open>Album purchases\<close>

lemma invoice_album_of_simps:
  "ia_invoice_id (invoice_album_of il t) = il_invoice_id il"
  "ia_track_id (invoice_album_of il t) = il_track_id il"
  "ia_album_id (invoice_album_of il (Some t')) = t_album_id t'"
  "ia_album_id (invoice_album_of il None) = None"
  by (simp_all add: invoice_album_of_def col_nullable_def)

lemma in_invoice_album:
  "r \<in> set (invoice_album il_tab t_tab) \<longleftrightarrow>
     (\<exists>il \<in> set il_tab.
        (\<exists>t \<in> set t_tab. t_track_id t = il_track_id il \<and> r = invoice_album_of il (Some t))
        \<or> ((\<forall>t \<in> set t_tab. t_track_id t \<noteq> il_track_id il) \<and> r = invoice_album_of il None))"
  unfolding invoice_album_def set_map set_left_join image_Un
  by (fastforce simp: image_iff)

lemma filter_eq_distinct:
  "distinct xs \<Longrightarrow> k \<in> set xs \<Longrightarrow> filter (\<lambda>x. x = k) xs = [k]"
proof (induction xs)
  case Nil
  then show ?case by simp
next
  case (Cons x xs)
  show ?case
  proof (cases "x = k")
    case True
    then have "k \<notin> set xs" using Cons.prems by simp
    then have "filter (\<lambda>x. x = k) xs = []" by (auto simp: filter_empty_conv)
    then show ?thesis using True by simp
  next
    case False
    then show ?thesis using Cons by simp
  qed
qed

lemma group_of_key:
  assumes "k \<in> key ` set rows"
  shows "filter (\<lambda>g. fst g = k) (group_by key rows) = [(k, filter (\<lambda>r. key r = k) rows)]"
proof -
  let ?keys = "sort (remdups (map key rows))"
  have "distinct ?keys" and "k \<in> set ?keys"
    using assms by simp_all
  then have "filter (\<lambda>x. x = k) ?keys = [k]"
    by (rule filter_eq_distinct)
  then show ?thesis
    by (simp add: group_by_def filter_map comp_def)
qed

subsubsection \<open>The table of album lengths\<close>

lemma album_lengths_keys: "map al_album_id (album_lengths t_tab) = map fst (group_by t_album_id t_tab)"
  by (simp add: album_lengths_def comp_def case_prod_unfold)

lemma album_length_of:
  assumes "al \<in> set (album_lengths t_tab)" and "al_album_id al = Some a"
  shows "al_album_length al = length (album_tracks t_tab a)"
proof -
  obtain k rows where kr: "(k, rows) \<in> set (group_by t_album_id t_tab)"
    and al: "al = \<lparr>al_album_id = k,
        al_album_length = count_distinct (map (\<lambda>t. Some (t_track_id t)) rows)\<rparr>"
    using assms(1) by (auto simp: album_lengths_def)
  then have "k = Some a" and rows: "rows = filter (\<lambda>t. t_album_id t = Some a) t_tab"
    using assms(2) group_by_rows [OF kr] by simp_all
  have "{x. Some x \<in> set (map (\<lambda>t. Some (t_track_id t)) rows)} = set (map t_track_id rows)"
    by auto
  then have "count_distinct (map (\<lambda>t. Some (t_track_id t)) rows)
      = length (remdups (map t_track_id rows))"
    by (simp only: count_distinct_card length_remdups_card_conv)
  then show ?thesis
    by (simp add: al rows album_tracks_def)
qed

lemma album_has_length:
  assumes "t \<in> set t_tab" and "t_album_id t = Some a"
  shows "\<exists>al \<in> set (album_lengths t_tab). al_album_id al = Some a"
proof -
  have "Some a \<in> set (map fst (group_by t_album_id t_tab))"
    using assms by (simp only: set_group_keys) force
  then have "Some a \<in> set (map al_album_id (album_lengths t_tab))"
    by (simp only: album_lengths_keys)
  then show ?thesis
    by auto
qed

subsubsection \<open>The join of the lines with the album lengths\<close>

lemma fst_set_left_join: "fst ` set (left_join xs ys on) = set xs"
proof (induction xs)
  case Nil
  then show ?case by (simp add: left_join_def)
next
  case (Cons x xs)
  have "fst ` set (left_join [x] ys on) = {x}"
    by (cases "filter (on x) ys") (auto simp: left_join_def image_iff)
  then show ?case
    using Cons.IH by (simp add: left_join_Cons [of x xs] image_Un)
qed

lemma joined_invoice_album:
  "fst ` set (invoice_album_lengths il_tab t_tab) = set (invoice_album il_tab t_tab)"
  unfolding invoice_album_lengths_def by (rule fst_set_left_join)

lemma album_of_row:
  assumes "ia \<in> set (invoice_album il_tab t_tab)" and "ia_album_id ia = Some a"
  shows "\<exists>t \<in> set t_tab. t_album_id t = Some a"
  using assms unfolding in_invoice_album by (auto simp: invoice_album_of_simps)

lemma joined_album_length:
  assumes "(ia, al) \<in> set (invoice_album_lengths il_tab t_tab)" and "ia_album_id ia = Some a"
  shows "col al_album_length al = Some (length (album_tracks t_tab a))"
proof -
  have ia: "ia \<in> set (invoice_album il_tab t_tab)"
    using assms(1) joined_invoice_album [of il_tab t_tab] by force
  then obtain t where "t \<in> set t_tab" "t_album_id t = Some a"
    using album_of_row [OF _ assms(2)] by blast
  then obtain al' where al': "al' \<in> set (album_lengths t_tab)" "al_album_id al' = Some a"
    using album_has_length by blast
  then have "is_true (sql_eq (al_album_id al') (ia_album_id ia))"
    by (simp add: assms(2) is_true_def sql_eq_def)
  then have "al \<noteq> None"
    using assms(1) al'(1) unfolding invoice_album_lengths_def set_left_join by auto
  then obtain al'' where al'': "al = Some al''" by auto
  then have "al'' \<in> set (album_lengths t_tab)"
    and "is_true (sql_eq (al_album_id al'') (ia_album_id ia))"
    using assms(1) unfolding invoice_album_lengths_def set_left_join by auto
  then have "al'' \<in> set (album_lengths t_tab)" and "al_album_id al'' = Some a"
    using assms(2) by (auto simp: is_true_def sql_eq_def split: option.splits)
  then show ?thesis
    using album_length_of [of al'' t_tab a] by (simp add: al'' col_def)
qed


subsubsection \<open>The group of an invoice\<close>

lemma set_map_filter: "set (List.map_filter f xs) = {y. \<exists>x \<in> set xs. f x = Some y}"
  by (induction xs) (auto split: option.splits)

lemma lines_of_fst:
  "fst ` set (lines_of il_tab t_tab v)
     = {ia \<in> set (invoice_album il_tab t_tab). ia_invoice_id ia = v}"
proof -
  have "fst ` set (lines_of il_tab t_tab v)
      = {ia \<in> fst ` set (invoice_album_lengths il_tab t_tab). ia_invoice_id ia = v}"
    by (force simp: lines_of_def)
  then show ?thesis
    by (simp only: joined_invoice_album)
qed

lemma albums_of_group:
  "{a. Some a \<in> set (map (\<lambda>(ia, al). ia_album_id ia) (lines_of il_tab t_tab v))}
     = set (albums_on il_tab t_tab v)"
proof -
  have "a \<in> {a. Some a \<in> set (map (\<lambda>(ia, al). ia_album_id ia) (lines_of il_tab t_tab v))}
      \<longleftrightarrow> a \<in> set (albums_on il_tab t_tab v)" for a
  proof -
    have "Some a \<in> set (map (\<lambda>(ia, al). ia_album_id ia) (lines_of il_tab t_tab v))
        \<longleftrightarrow> (\<exists>ia \<in> fst ` set (lines_of il_tab t_tab v). ia_album_id ia = Some a)"
      by (force simp: case_prod_unfold)
    also have "\<dots> \<longleftrightarrow> (\<exists>ia \<in> set (invoice_album il_tab t_tab).
        ia_invoice_id ia = v \<and> ia_album_id ia = Some a)"
      by (simp only: lines_of_fst) blast
    also have "\<dots> \<longleftrightarrow> (\<exists>il \<in> set il_tab. \<exists>t \<in> set t_tab.
        t_track_id t = il_track_id il \<and> il_invoice_id il = v \<and> t_album_id t = Some a)"
    proof
      assume "\<exists>ia \<in> set (invoice_album il_tab t_tab).
          ia_invoice_id ia = v \<and> ia_album_id ia = Some a"
      then obtain ia where ia: "ia \<in> set (invoice_album il_tab t_tab)"
        "ia_invoice_id ia = v" "ia_album_id ia = Some a"
        by blast
      from ia(1) obtain il where il: "il \<in> set il_tab"
        and "(\<exists>t \<in> set t_tab. t_track_id t = il_track_id il \<and> ia = invoice_album_of il (Some t))
          \<or> ((\<forall>t \<in> set t_tab. t_track_id t \<noteq> il_track_id il) \<and> ia = invoice_album_of il None)"
        unfolding in_invoice_album by blast
      with ia(3) obtain t where "t \<in> set t_tab" "t_track_id t = il_track_id il"
        "ia = invoice_album_of il (Some t)"
        by (auto simp: invoice_album_of_simps)
      with ia(2,3) il show "\<exists>il \<in> set il_tab. \<exists>t \<in> set t_tab.
          t_track_id t = il_track_id il \<and> il_invoice_id il = v \<and> t_album_id t = Some a"
        by (auto simp: invoice_album_of_simps)
    next
      assume "\<exists>il \<in> set il_tab. \<exists>t \<in> set t_tab.
          t_track_id t = il_track_id il \<and> il_invoice_id il = v \<and> t_album_id t = Some a"
      then obtain il t where ilt: "il \<in> set il_tab" "t \<in> set t_tab"
        "t_track_id t = il_track_id il" "il_invoice_id il = v" "t_album_id t = Some a"
        by blast
      have "\<exists>t' \<in> set t_tab. t_track_id t' = il_track_id il
          \<and> invoice_album_of il (Some t) = invoice_album_of il (Some t')"
        using ilt(2,3) by (intro bexI [of _ t]) simp_all
      then have "invoice_album_of il (Some t) \<in> set (invoice_album il_tab t_tab)"
        unfolding in_invoice_album using ilt(1) by (intro bexI [of _ il] disjI1)
      moreover have "ia_invoice_id (invoice_album_of il (Some t)) = v"
        "ia_album_id (invoice_album_of il (Some t)) = Some a"
        using ilt(4,5) by (simp_all add: invoice_album_of_simps)
      ultimately show "\<exists>ia \<in> set (invoice_album il_tab t_tab).
          ia_invoice_id ia = v \<and> ia_album_id ia = Some a"
        by blast
    qed
    also have "\<dots> \<longleftrightarrow> (\<exists>t \<in> set t_tab.
        (\<exists>il \<in> set il_tab. il_invoice_id il = v \<and> il_track_id il = t_track_id t)
        \<and> t_album_id t = Some a)"
    proof
      assume "\<exists>il \<in> set il_tab. \<exists>t \<in> set t_tab.
          t_track_id t = il_track_id il \<and> il_invoice_id il = v \<and> t_album_id t = Some a"
      then obtain il t where "il \<in> set il_tab" "t \<in> set t_tab"
        "il_track_id il = t_track_id t" "il_invoice_id il = v" "t_album_id t = Some a"
        by force
      then show "\<exists>t \<in> set t_tab.
          (\<exists>il \<in> set il_tab. il_invoice_id il = v \<and> il_track_id il = t_track_id t)
          \<and> t_album_id t = Some a"
        by blast
    next
      assume "\<exists>t \<in> set t_tab.
          (\<exists>il \<in> set il_tab. il_invoice_id il = v \<and> il_track_id il = t_track_id t)
          \<and> t_album_id t = Some a"
      then obtain il t where "il \<in> set il_tab" "t \<in> set t_tab"
        "t_track_id t = il_track_id il" "il_invoice_id il = v" "t_album_id t = Some a"
        by force
      then show "\<exists>il \<in> set il_tab. \<exists>t \<in> set t_tab.
          t_track_id t = il_track_id il \<and> il_invoice_id il = v \<and> t_album_id t = Some a"
        by blast
    qed
    also have "\<dots> \<longleftrightarrow> a \<in> set (albums_on il_tab t_tab v)"
      unfolding albums_on_def set_remdups set_map_filter by (simp add: Bex_def conj_assoc)
    finally show ?thesis by simp
  qed
  then show ?thesis by blast
qed

lemma tracks_of_group:
  "{x. Some x \<in> set (map (\<lambda>(ia, al). Some (ia_track_id ia)) (lines_of il_tab t_tab v))}
     = set (tracks_on il_tab v)"
proof -
  have "x \<in> {x. Some x \<in> set (map (\<lambda>(ia, al). Some (ia_track_id ia)) (lines_of il_tab t_tab v))}
      \<longleftrightarrow> x \<in> set (tracks_on il_tab v)" for x
  proof -
    have "Some x \<in> set (map (\<lambda>(ia, al). Some (ia_track_id ia)) (lines_of il_tab t_tab v))
        \<longleftrightarrow> (\<exists>ia \<in> fst ` set (lines_of il_tab t_tab v). ia_track_id ia = x)"
      by (force simp: case_prod_unfold)
    also have "\<dots> \<longleftrightarrow> (\<exists>ia \<in> set (invoice_album il_tab t_tab).
        ia_invoice_id ia = v \<and> ia_track_id ia = x)"
      by (simp only: lines_of_fst) blast
    also have "\<dots> \<longleftrightarrow> (\<exists>il \<in> set il_tab. il_invoice_id il = v \<and> il_track_id il = x)"
    proof
      assume "\<exists>ia \<in> set (invoice_album il_tab t_tab). ia_invoice_id ia = v \<and> ia_track_id ia = x"
      then obtain ia where ia: "ia \<in> set (invoice_album il_tab t_tab)"
        "ia_invoice_id ia = v" "ia_track_id ia = x"
        by blast
      from ia(1) obtain il t where "il \<in> set il_tab" "ia = invoice_album_of il t"
        unfolding in_invoice_album by blast
      with ia(2,3) show "\<exists>il \<in> set il_tab. il_invoice_id il = v \<and> il_track_id il = x"
        by (auto simp: invoice_album_of_simps)
    next
      assume "\<exists>il \<in> set il_tab. il_invoice_id il = v \<and> il_track_id il = x"
      then obtain il where il: "il \<in> set il_tab" "il_invoice_id il = v" "il_track_id il = x"
        by blast
      have "\<exists>t. invoice_album_of il t \<in> set (invoice_album il_tab t_tab)"
      proof (cases "\<exists>t \<in> set t_tab. t_track_id t = il_track_id il")
        case True
        then obtain t where t: "t \<in> set t_tab" "t_track_id t = il_track_id il" by blast
        have "\<exists>t' \<in> set t_tab. t_track_id t' = il_track_id il
            \<and> invoice_album_of il (Some t) = invoice_album_of il (Some t')"
          using t by (intro bexI [of _ t]) simp_all
        then have "invoice_album_of il (Some t) \<in> set (invoice_album il_tab t_tab)"
          unfolding in_invoice_album using il(1) by (intro bexI [of _ il] disjI1)
        then show ?thesis by blast
      next
        case False
        then have "(\<forall>t \<in> set t_tab. t_track_id t \<noteq> il_track_id il)
            \<and> invoice_album_of il None = invoice_album_of il None"
          by simp
        then have "invoice_album_of il None \<in> set (invoice_album il_tab t_tab)"
          unfolding in_invoice_album using il(1) by (intro bexI [of _ il] disjI2)
        then show ?thesis by blast
      qed
      then obtain t where "invoice_album_of il t \<in> set (invoice_album il_tab t_tab)"
        by blast
      moreover have "ia_invoice_id (invoice_album_of il t) = v"
        "ia_track_id (invoice_album_of il t) = x"
        using il(2,3) by (simp_all add: invoice_album_of_simps)
      ultimately show "\<exists>ia \<in> set (invoice_album il_tab t_tab).
          ia_invoice_id ia = v \<and> ia_track_id ia = x"
        by blast
    qed
    also have "\<dots> \<longleftrightarrow> x \<in> set (tracks_on il_tab v)"
      unfolding tracks_on_def by auto
    finally show ?thesis by simp
  qed
  then show ?thesis by blast
qed

lemma num_albums_of_group:
  "count_distinct (map (\<lambda>(ia, al). ia_album_id ia) (lines_of il_tab t_tab v))
     = length (albums_on il_tab t_tab v)"
proof -
  have "distinct (albums_on il_tab t_tab v)"
    by (simp add: albums_on_def)
  then have "length (albums_on il_tab t_tab v) = card (set (albums_on il_tab t_tab v))"
    by (simp add: distinct_card)
  then show ?thesis
    by (simp only: count_distinct_card albums_of_group)
qed

lemma distinct_songs_of_group:
  "count_distinct (map (\<lambda>(ia, al). Some (ia_track_id ia)) (lines_of il_tab t_tab v))
     = length (tracks_on il_tab v)"
proof -
  have "distinct (tracks_on il_tab v)"
    by (simp add: tracks_on_def)
  then have "length (tracks_on il_tab v) = card (set (tracks_on il_tab v))"
    by (simp add: distinct_card)
  then show ?thesis
    by (simp only: count_distinct_card tracks_of_group)
qed


lemma sql_max_single:
  assumes "{x. Some x \<in> set xs} = {a}"
  shows "sql_max xs = Some a"
proof -
  have set: "set (List.map_filter id xs) = {a}"
    using assms by (simp add: set_map_filter)
  then obtain v vs where vs: "List.map_filter id xs = v # vs"
    by (cases "List.map_filter id xs") auto
  have "set (v # vs) = {a}"
    using set by (simp only: vs)
  then have "Max (set (v # vs)) = a"
    by (simp only: Max_singleton)
  then have "fold max vs v = a"
    by (simp only: Max.set_eq_fold)
  then show ?thesis
    by (simp add: sql_max_def vs)
qed

lemma max_album_length:
  assumes "albums_on il_tab t_tab v = [a]"
  shows "length_of_max_album (lines_of il_tab t_tab v) = Some (length (album_tracks t_tab a))"
proof -
  define rows where "rows = lines_of il_tab t_tab v"
  define f where
    "f = (\<lambda>(ia :: invoice_album_row, al :: album_length_row option). ia_album_id ia)"
  have albums: "{x. Some x \<in> set (map f rows)} = {a}"
    using albums_of_group [of il_tab t_tab v] assms by (simp add: rows_def f_def)
  then have max: "sql_max (map f rows) = Some a"
    by (rule sql_max_single)
  have "Some a \<in> set (map f rows)"
    using albums by blast
  then have "\<exists>r \<in> set rows. f r = Some a"
    by auto
  then have "find (\<lambda>r. f r = Some a) rows \<noteq> None"
    unfolding find_None_iff by blast
  then obtain r where r: "find (\<lambda>r. f r = Some a) rows = Some r"
    by auto
  then have "f r = Some a" and "r \<in> set rows"
    by (auto simp: find_Some_iff)
  then have "ia_album_id (fst r) = Some a"
    and "(fst r, snd r) \<in> set (invoice_album_lengths il_tab t_tab)"
    by (simp_all add: f_def rows_def lines_of_def case_prod_unfold)
  then have "col al_album_length (snd r) = Some (length (album_tracks t_tab a))"
    using joined_album_length [of "fst r" "snd r" il_tab t_tab a] by simp
  moreover have "length_of_max_album rows
      = (case find (\<lambda>r. f r = sql_max (map f rows)) rows of
           None \<Rightarrow> None | Some r \<Rightarrow> col al_album_length (snd r))"
    by (simp add: length_of_max_album_def f_def case_prod_unfold split: option.splits)
  ultimately have "length_of_max_album rows = Some (length (album_tracks t_tab a))"
    by (simp add: max r)
  then show ?thesis
    by (simp only: rows_def)
qed

lemma summary_of_group:
  "num_albums (summary label (v, lines_of il_tab t_tab v)) = length (albums_on il_tab t_tab v)"
  "distinct_songs (summary label (v, lines_of il_tab t_tab v)) = length (tracks_on il_tab v)"
  "invoice_id (summary label g) = fst g"
  "album_purchase (summary label g) = label"
  by (simp_all add: summary_def num_albums_of_group distinct_songs_of_group)

lemma having_of_group:
  "having_yes (summary label (v, lines_of il_tab t_tab v)) \<longleftrightarrow> whole_album il_tab t_tab v"
  "having_no (summary label' (v, lines_of il_tab t_tab v)) \<longleftrightarrow> \<not> whole_album il_tab t_tab v"
proof -
  let ?yes = "summary label (v, lines_of il_tab t_tab v)"
  let ?no = "summary label' (v, lines_of il_tab t_tab v)"
  consider (one) a where "albums_on il_tab t_tab v = [a]"
    | (other) "length (albums_on il_tab t_tab v) \<noteq> 1"
    by (cases "albums_on il_tab t_tab v"; cases "tl (albums_on il_tab t_tab v)") auto
  then have "(having_yes ?yes \<longleftrightarrow> whole_album il_tab t_tab v)
      \<and> (having_no ?no \<longleftrightarrow> \<not> whole_album il_tab t_tab v)"
  proof cases
    case one
    have "album_length ?yes = Some (length (album_tracks t_tab a))"
      "album_length ?no = Some (length (album_tracks t_tab a))"
      using max_album_length [OF one] by (simp_all add: summary_def)
    then show ?thesis
      using one
      by (simp add: having_yes_def having_no_def summary_of_group whole_album_def
          is_true_def sql_and_def sql_or_def sql_eq_def sql_ne_def)
  next
    case other
    then have "\<not> whole_album il_tab t_tab v"
      by (auto simp: whole_album_def split: list.splits)
    then show ?thesis
      using other
      by (simp add: having_yes_def having_no_def summary_of_group
          is_true_def sql_and_def sql_or_def sql_eq_def sql_ne_def)
  qed
  then show "having_yes ?yes \<longleftrightarrow> whole_album il_tab t_tab v"
    and "having_no ?no \<longleftrightarrow> \<not> whole_album il_tab t_tab v"
    by simp_all
qed

lemma invoice_has_group:
  assumes "il \<in> set il_tab"
  shows "il_invoice_id il
     \<in> (\<lambda>(ia, al). ia_invoice_id ia) ` set (invoice_album_lengths il_tab t_tab)"
proof -
  have "il_track_id il \<in> set (tracks_on il_tab (il_invoice_id il))"
    using assms by (simp add: tracks_on_def)
  then have "Some (il_track_id il) \<in> set (map (\<lambda>(ia, al). Some (ia_track_id ia))
      (lines_of il_tab t_tab (il_invoice_id il)))"
    using tracks_of_group [of il_tab t_tab "il_invoice_id il"] by blast
  then obtain r where "r \<in> set (lines_of il_tab t_tab (il_invoice_id il))"
    by auto
  then have "r \<in> set (invoice_album_lengths il_tab t_tab)"
    and "(\<lambda>(ia, al). ia_invoice_id ia) r = il_invoice_id il"
    by (simp_all add: lines_of_def case_prod_unfold)
  then show ?thesis
    by (metis image_eqI)
qed

lemma classified_of_invoice:
  assumes "il \<in> set il_tab" and "il_invoice_id il = v"
  shows "filter (\<lambda>r. invoice_id r = v) (classified il_tab t_tab)
         = [summary (if whole_album il_tab t_tab v then ''yes'' else ''no'')
              (v, lines_of il_tab t_tab v)]"
proof -
  define groups where
    "groups = group_by (\<lambda>(ia, al). ia_invoice_id ia) (invoice_album_lengths il_tab t_tab)"
  have group: "filter (\<lambda>g. fst g = v) groups = [(v, lines_of il_tab t_tab v)]"
    using group_of_key [OF invoice_has_group [OF assms(1), of t_tab]] assms(2)
    by (simp add: groups_def lines_of_def case_prod_unfold)
  have part: "filter (\<lambda>r. invoice_id r = v) (filter H (map (summary label) groups))
      = filter H [summary label (v, lines_of il_tab t_tab v)]" for H label
  proof -
    have "filter (\<lambda>r. invoice_id r = v) (map (summary label) groups)
        = map (summary label) (filter (\<lambda>g. fst g = v) groups)"
      by (simp add: filter_map comp_def summary_of_group)
    then have "filter H (filter (\<lambda>r. invoice_id r = v) (map (summary label) groups))
        = filter H [summary label (v, lines_of il_tab t_tab v)]"
      by (simp only: group list.map)
    then show ?thesis
      by (simp add: conj_commute)
  qed
  have "filter (\<lambda>r. invoice_id r = v) (classified il_tab t_tab)
      = remdups (filter (\<lambda>r. invoice_id r = v) (filter having_yes (map (summary ''yes'') groups))
          @ filter (\<lambda>r. invoice_id r = v) (filter having_no (map (summary ''no'') groups)))"
    by (simp add: classified_def Let_def groups_def remdups_filter [symmetric])
  then show ?thesis
    by (simp only: part) (simp add: having_of_group)
qed


lemma invoices_counted:
  assumes "p \<in> set (album_query il_tab t_tab i_tab)"
  shows "number_of_invoices p
         = length (filter (\<lambda>r. album_purchase r = purchase p) (classified il_tab t_tab))"
proof -
  obtain label rows where g: "(label, rows) \<in> set (group_by album_purchase (classified il_tab t_tab))"
    and "purchase p = label"
    and "number_of_invoices p = sql_count (map (\<lambda>r. Some (invoice_id r)) rows)"
    using assms by (auto simp: album_query_def)
  moreover have "sql_count (map (\<lambda>r. Some (invoice_id r)) rows) = length rows"
    by (simp add: sql_count_def)
  ultimately show ?thesis
    using group_by_rows [OF g] by simp
qed

text \<open>
  Claim C1: every invoice that has an invoice line is classified by exactly one row of the
  subquery; the row holds the number of distinct albums among the tracks on the invoice's
  lines and the number of distinct tracks on its lines; and its label is "yes" if and only
  if there is one such album and the invoice has as many distinct tracks as that album has
  in the track table, and "no" if and only if not. The outer query counts, for each label,
  the rows that carry it.
\<close>

theorem invoices_classified_by_whole_album:
  "(\<forall>il \<in> set il_tab.
      \<exists>r. filter (\<lambda>r. invoice_id r = il_invoice_id il) (classified il_tab t_tab) = [r]
         \<and> num_albums r = length (albums_on il_tab t_tab (il_invoice_id il))
         \<and> distinct_songs r = length (tracks_on il_tab (il_invoice_id il))
         \<and> (album_purchase r = ''yes'' \<longleftrightarrow> whole_album il_tab t_tab (il_invoice_id il))
         \<and> (album_purchase r = ''no'' \<longleftrightarrow> \<not> whole_album il_tab t_tab (il_invoice_id il)))
   \<and> (\<forall>p \<in> set (album_query il_tab t_tab i_tab).
         number_of_invoices p
         = length (filter (\<lambda>r. album_purchase r = purchase p) (classified il_tab t_tab)))"
proof -
  have "\<exists>r. filter (\<lambda>r. invoice_id r = il_invoice_id il) (classified il_tab t_tab) = [r]
      \<and> num_albums r = length (albums_on il_tab t_tab (il_invoice_id il))
      \<and> distinct_songs r = length (tracks_on il_tab (il_invoice_id il))
      \<and> (album_purchase r = ''yes'' \<longleftrightarrow> whole_album il_tab t_tab (il_invoice_id il))
      \<and> (album_purchase r = ''no'' \<longleftrightarrow> \<not> whole_album il_tab t_tab (il_invoice_id il))"
    if "il \<in> set il_tab" for il
    using classified_of_invoice [OF that refl, of t_tab]
    by (simp add: summary_of_group)
  then show ?thesis
    using invoices_counted [of _ il_tab t_tab i_tab] by blast
qed

theorem invoices_classified_by_whole_album_witness:
  "classified sample_invoice_line sample_track =
     [\<lparr>invoice_id = 1, num_albums = 1, distinct_songs = 2, album_id = Some 1,
        album_length = Some 2, album_purchase = ''yes''\<rparr>,
      \<lparr>invoice_id = 2, num_albums = 1, distinct_songs = 1, album_id = Some 2,
        album_length = Some 2, album_purchase = ''no''\<rparr>,
      \<lparr>invoice_id = 3, num_albums = 2, distinct_songs = 2, album_id = Some 2,
        album_length = Some 2, album_purchase = ''no''\<rparr>]
   \<and> whole_album sample_invoice_line sample_track 1
   \<and> \<not> whole_album sample_invoice_line sample_track 2
   \<and> \<not> whole_album sample_invoice_line sample_track 3
   \<and> album_query sample_invoice_line sample_track sample_invoice =
       [\<lparr>purchase = ''no'', number_of_invoices = 2, percent = Some (667 / 1000)\<rparr>,
        \<lparr>purchase = ''yes'', number_of_invoices = 1, percent = Some (333 / 1000)\<rparr>]"
proof -
  have rows: "classified sample_invoice_line sample_track =
     [\<lparr>invoice_id = 1, num_albums = 1, distinct_songs = 2, album_id = Some 1,
        album_length = Some 2, album_purchase = ''yes''\<rparr>,
      \<lparr>invoice_id = 2, num_albums = 1, distinct_songs = 1, album_id = Some 2,
        album_length = Some 2, album_purchase = ''no''\<rparr>,
      \<lparr>invoice_id = 3, num_albums = 2, distinct_songs = 2, album_id = Some 2,
        album_length = Some 2, album_purchase = ''no''\<rparr>]"
    by code_simp
  have result: "album_query sample_invoice_line sample_track sample_invoice =
       [\<lparr>purchase = ''no'', number_of_invoices = 2, percent = Some (667 / 1000)\<rparr>,
        \<lparr>purchase = ''yes'', number_of_invoices = 1, percent = Some (333 / 1000)\<rparr>]"
    by code_simp
  have lines: "\<lparr>il_invoice_line_id = 1, il_invoice_id = 1, il_track_id = 10, il_quantity = 1\<rparr>
      \<in> set sample_invoice_line"
    "\<lparr>il_invoice_line_id = 3, il_invoice_id = 2, il_track_id = 12, il_quantity = 1\<rparr>
      \<in> set sample_invoice_line"
    "\<lparr>il_invoice_line_id = 4, il_invoice_id = 3, il_track_id = 10, il_quantity = 1\<rparr>
      \<in> set sample_invoice_line"
    by (simp_all add: sample_invoice_line_def)
  have all: "\<forall>il \<in> set sample_invoice_line.
      \<exists>r. filter (\<lambda>r. invoice_id r = il_invoice_id il)
            (classified sample_invoice_line sample_track) = [r]
         \<and> (album_purchase r = ''yes''
              \<longleftrightarrow> whole_album sample_invoice_line sample_track (il_invoice_id il))"
    using invoices_classified_by_whole_album [of sample_invoice_line sample_track sample_invoice]
    by blast
  show ?thesis
    using all [rule_format, OF lines(1)] all [rule_format, OF lines(2)]
      all [rule_format, OF lines(3)]
    by (simp add: rows result)
qed

subsection \<open>The captured figures\<close>

text \<open>
  The outputs stored in the notebook agree with the arithmetic of the queries: the
  eighteen captured values of \<^verbatim>\<open>tracks_sold\<close> add up to 4757, of which 2635 is 55.39
  percent, and 114 and 500 of 614 invoices are 0.186 and 0.814. The tables that produced
  them are not part of the repository.
\<close>

lemma captured_figures_agree:
  "sum_list [2635, 619, 492, 167, 159, 124, 121, 117, 74, 63, 55, 47, 35, 33, 8, 5, 2, 1]
     = (4757 :: int)"
  "percent_of 2635 4757 = Some (5539 / 100)"
  "(114 :: nat) + 500 = 614"
  "sql_round (sql_div (Some (of_nat 114)) (Some (of_nat 614))) 3 = Some (186 / 1000)"
  "sql_round (sql_div (Some (of_nat 500)) (Some (of_nat 614))) 3 = Some (814 / 1000)"
  by code_simp+

end
